theory Spec2Isabelle
  imports Complex_Main
begin

section \<open>Go primitives used by the agent\<close>

text \<open>
  A \<^verbatim>\<open>float64\<close> is modelled by the real number it denotes; the values without one
  (NaN and the infinities) do not occur in a decoded JSON payload and are left out.

  An arithmetic operation on \<^verbatim>\<open>float64\<close> yields the exact result rounded to the
  nearest \<^verbatim>\<open>float64\<close>, ties to the even significand. \<open>roundFloat64\<close> is that
  rounding to 53 significant bits: \<open>expo a\<close> is the exponent \<open>e\<close> with
  \<open>2^e \<le> a < 2^(e+1)\<close>, the spacing of the \<^verbatim>\<open>float64\<close> values there is
  \<open>2^(e-52)\<close>, and \<open>roundEven\<close> rounds the quotient to the nearest integer, a tie to
  the even one. The bounds of the exponent are left out: the sum of a \<^verbatim>\<open>float64\<close>
  and 360 neither overflows nor falls into the subnormal range.
\<close>

function ilog2 :: "int \<Rightarrow> nat" where
  "ilog2 n = (if n < 2 then 0 else Suc (ilog2 (n div 2)))"
  by pat_completeness auto
termination
  by (relation "measure nat") auto

declare ilog2.simps [simp del]

definition pow2 :: "int \<Rightarrow> real" where
  "pow2 e = (if 0 \<le> e then 2 ^ nat e else 1 / 2 ^ nat (- e))"

definition expo :: "real \<Rightarrow> int" where
  "expo x =
     (if 1 \<le> x then int (ilog2 \<lfloor>x\<rfloor>)
      else - int (Suc (ilog2 (\<lceil>1 / x\<rceil> - 1))))"

definition roundEven :: "real \<Rightarrow> int" where
  "roundEven q =
     (let f = \<lfloor>q\<rfloor>; r = q - real_of_int f
      in if r < 1 / 2 then f
         else if 1 / 2 < r then f + 1
         else if even f then f else f + 1)"

definition roundFloat64 :: "real \<Rightarrow> real" where
  "roundFloat64 x =
     (if x = 0 then 0
      else let a = \<bar>x\<bar>; u = pow2 (expo a - 52); m = real_of_int (roundEven (a / u)) * u
           in if 0 < x then m else - m)"

text \<open>
  The conversion \<^verbatim>\<open>int(x)\<close> of a \<^verbatim>\<open>float64\<close> truncates toward zero. \<^verbatim>\<open>int\<close> has
  64 bits; for a value outside its range the language leaves the result to the
  implementation, and the model takes the result on amd64, the smallest \<^verbatim>\<open>int\<close>.
  Go's \<^verbatim>\<open>%\<close> on integers is the truncated remainder: its result has the sign of
  the dividend.
\<close>

definition goTrunc :: "real \<Rightarrow> int" where
  "goTrunc x =
     (let t = (if 0 \<le> x then \<lfloor>x\<rfloor> else \<lceil>x\<rceil>)
      in if - (2 ^ 63) \<le> t \<and> t < 2 ^ 63 then t else - (2 ^ 63))"

definition goRem :: "int \<Rightarrow> int \<Rightarrow> int" where
  "goRem a b = (if 0 \<le> a then a mod \<bar>b\<bar> else - ((- a) mod \<bar>b\<bar>))"

section \<open>Compass classifier\<close>

text \<open>
  Both versions of \<^verbatim>\<open>degToCompass\<close> and \<^verbatim>\<open>isEasterly\<close> start with the same
  statement, \<^verbatim>\<open>deg = float64(int(deg+360) % 360)\<close>; it is \<open>normalizeDeg\<close> here.
\<close>

definition normalizeDeg :: "real \<Rightarrow> real" where
  "normalizeDeg deg = real_of_int (goRem (goTrunc (roundFloat64 (deg + 360))) 360)"

text \<open>
  The whole number of degrees in the rounded sum, before the remainder is taken.
\<close>

definition wholeSum :: "real \<Rightarrow> int" where
  "wholeSum d = \<lfloor>roundFloat64 (d + 360)\<rfloor>"

text \<open>
  \<^verbatim>\<open>degToCompass\<close> of \<^verbatim>\<open>internal/agent/agent.go\<close>: East or West only.
\<close>

definition degToCompass :: "real \<Rightarrow> string" where
  "degToCompass deg0 =
     (let deg = normalizeDeg deg0
      in if deg > 0 \<and> deg < 180 then ''E'' else ''W'')"

definition isEasterly :: "real \<Rightarrow> bool" where
  "isEasterly deg0 = (let deg = normalizeDeg deg0 in deg > 0 \<and> deg < 180)"

text \<open>
  \<^verbatim>\<open>degToCompass\<close> of the other version of the agent package (the file whose
  table has the columns Wind Max, Gust Max and Dir): North, East, South or West.
  The two functions share their name in the source; this one is \<open>degToCompassNESW\<close>.
\<close>

definition degToCompassNESW :: "real \<Rightarrow> string" where
  "degToCompassNESW deg0 =
     (let deg = normalizeDeg deg0
      in if deg \<ge> 30 \<and> deg < 150 then ''E''
         else if deg \<ge> 210 \<and> deg < 330 then ''W''
         else if deg \<ge> 150 \<and> deg < 210 then ''S''
         else ''N'')"

section \<open>Agent construction\<close>

text \<open>
  The forecaster is the interface method \<^verbatim>\<open>Fetch(ctx, days)\<close>, which returns a
  slice together with an error value (\<open>None\<close> for \<^verbatim>\<open>nil\<close>); the Ollama client is
  its method \<^verbatim>\<open>Generate(ctx, prompt)\<close>, which returns an error (\<open>Inl\<close>) or the
  summary (\<open>Inr\<close>). A \<^verbatim>\<open>nil\<close> dependency is \<open>None\<close>.
\<close>

record GoTime =
  tYear :: int
  tMonth :: int
  tDay :: int
  tHour :: int
  tMinute :: int

record ForecastDay =
  Date :: GoTime
  WindSpeedMax :: real
  WindGustMax :: real
  WindDirMean :: real

record Config =
  LocationName :: string
  ForecastDays :: int
  Weather :: "(int \<Rightarrow> ForecastDay list \<times> string option) option"
  Ollama :: "(string \<Rightarrow> string + string) option"
  TelegramToken :: string
  TelegramChatID :: string

record Agent =
  cfg :: Config

definition New :: "Config \<Rightarrow> Agent" where
  "New c = \<lparr>cfg = (if ForecastDays c \<le> 0 then c\<lparr>ForecastDays := 15\<rparr> else c)\<rparr>"

section \<open>Forecast normalizer\<close>

text \<open>
  The decoded provider payloads of \<^verbatim>\<open>internal/weather/weather.go\<close>. The four
  structs share field names in the source; each field carries its struct here:
  \<open>_om\<close> for \<^verbatim>\<open>openMeteoDaily\<close>, \<open>_rd\<close> for \<^verbatim>\<open>rainDaily\<close>, \<open>_rh\<close> for
  \<^verbatim>\<open>rainHourly\<close> and \<open>_rf\<close> for \<^verbatim>\<open>RainForecast\<close>.
\<close>

record openMeteoDaily =
  Time_om :: "string list"
  WindSpeedMax_om :: "real list"
  WindGustMax_om :: "real list"
  WindDirMean_om :: "real list"

record rainDaily =
  Time_rd :: "string list"
  PrecipSum_rd :: "real list"
  PrecipProb_rd :: "int list"

record rainHourly =
  Time_rh :: "string list"
  PrecipProb_rh :: "int list"
  Precip_rh :: "real list"

record rainResponse =
  Daily :: rainDaily
  Hourly :: rainHourly

record RainForecast =
  Date_rf :: GoTime
  PrecipProb_rf :: int
  PrecipMM :: real
  MorningRainProb :: "int list"
  MorningRainMM :: "real list"
  AfternoonProb :: "int list"

text \<open>
  What a call can end with instead of a result. The first three are the error values
  the functions return: \<^verbatim>\<open>"no daily data returned"\<close> and \<^verbatim>\<open>"no daily rain data"\<close>
  (\<open>EmptyData\<close>), \<^verbatim>\<open>"open-meteo arrays differ in length"\<close> (\<open>ShapeMismatch\<close>) and
  \<^verbatim>\<open>"parse date ..."\<close> with the offending string (\<open>DateParse\<close>). The last is no
  error value: it is the run-time panic of Go on a slice index out of range, which
  unwinds the goroutine.
\<close>

datatype error = EmptyData | ShapeMismatch | DateParse string | PanicIndexOutOfRange

definition isValidationError :: "error \<Rightarrow> bool" where
  "isValidationError e = (e \<noteq> PanicIndexOutOfRange)"

definition bindE :: "error + 'a \<Rightarrow> ('a \<Rightarrow> error + 'b) \<Rightarrow> error + 'b" where
  "bindE m f = (case m of Inl e \<Rightarrow> Inl e | Inr x \<Rightarrow> f x)"

text \<open>The index expression \<^verbatim>\<open>xs[i]\<close> on a slice.\<close>

definition goIndex :: "'a list \<Rightarrow> nat \<Rightarrow> error + 'a" where
  "goIndex xs i = (if i < length xs then Inr (xs ! i) else Inl PanicIndexOutOfRange)"

text \<open>
  \<^verbatim>\<open>time.Parse\<close> belongs to Go's standard library, so the normalizers take the
  parser of each layout as a parameter: \<open>None\<close> is a parse error, \<open>Some t\<close> the
  parsed time with its calendar fields.

  \<^verbatim>\<open>toForecastDays\<close>: the loop \<^verbatim>\<open>for idx := range d.Time\<close> runs over the list of
  indices.
\<close>

fun toForecastDays_loop ::
  "(string \<Rightarrow> GoTime option) \<Rightarrow> openMeteoDaily \<Rightarrow> nat list \<Rightarrow> ForecastDay list
     \<Rightarrow> error + ForecastDay list" where
  "toForecastDays_loop parse d [] out = Inr out"
| "toForecastDays_loop parse d (idx # rest) out =
     bindE (goIndex (Time_om d) idx) (\<lambda>s.
       case parse s of
         None \<Rightarrow> Inl (DateParse s)
       | Some date \<Rightarrow>
           bindE (goIndex (WindSpeedMax_om d) idx) (\<lambda>ws.
           bindE (goIndex (WindGustMax_om d) idx) (\<lambda>wg.
           bindE (goIndex (WindDirMean_om d) idx) (\<lambda>wd.
             toForecastDays_loop parse d rest
               (out @ [\<lparr>Date = date, WindSpeedMax = ws, WindGustMax = wg,
                        WindDirMean = wd\<rparr>])))))"

definition toForecastDays ::
  "(string \<Rightarrow> GoTime option) \<Rightarrow> openMeteoDaily \<Rightarrow> error + ForecastDay list" where
  "toForecastDays parse d =
     (if length (Time_om d) = 0 then Inl EmptyData
      else if length (Time_om d) \<noteq> length (WindSpeedMax_om d)
              \<or> length (Time_om d) \<noteq> length (WindGustMax_om d)
              \<or> length (Time_om d) \<noteq> length (WindDirMean_om d)
           then Inl ShapeMismatch
      else toForecastDays_loop parse d [0..<length (Time_om d)] [])"

text \<open>
  \<^verbatim>\<open>toRainForecasts\<close>. \<open>hourlyStep\<close> is the body of the inner loop
  \<^verbatim>\<open>for j, hourStr := range r.Hourly.Time\<close> for one pair \<open>(j, hourStr)\<close>, and
  \<open>scanHourly\<close> the loop; \<open>rainDay\<close> is the body of the outer loop
  \<^verbatim>\<open>for i, dateStr := range r.Daily.Time\<close> and \<open>toRainForecasts_loop\<close> that loop.
\<close>

definition hourlyStep ::
  "(string \<Rightarrow> GoTime option) \<Rightarrow> GoTime \<Rightarrow> rainHourly \<Rightarrow> nat \<times> string \<Rightarrow> RainForecast
     \<Rightarrow> error + RainForecast" where
  "hourlyStep parseHour date h js rf =
     (case js of (j, hourStr) \<Rightarrow>
        (case parseHour hourStr of
           None \<Rightarrow> Inr rf
         | Some hourTime \<Rightarrow>
             if tYear hourTime = tYear date \<and> tMonth hourTime = tMonth date
                \<and> tDay hourTime = tDay date
             then
               (let hour = tHour hourTime in
                bindE
                  (if hour \<ge> 6 \<and> hour \<le> 10
                   then bindE (goIndex (PrecipProb_rh h) j) (\<lambda>p.
                        bindE (goIndex (Precip_rh h) j) (\<lambda>mm.
                          Inr (rf\<lparr>MorningRainProb := MorningRainProb rf @ [p],
                                  MorningRainMM := MorningRainMM rf @ [mm]\<rparr>)))
                   else Inr rf)
                  (\<lambda>rf1.
                     if hour \<ge> 15 \<and> hour \<le> 18
                     then bindE (goIndex (PrecipProb_rh h) j) (\<lambda>p.
                            Inr (rf1\<lparr>AfternoonProb := AfternoonProb rf1 @ [p]\<rparr>))
                     else Inr rf1))
             else Inr rf))"

fun scanHourly ::
  "(string \<Rightarrow> GoTime option) \<Rightarrow> GoTime \<Rightarrow> rainHourly \<Rightarrow> (nat \<times> string) list
     \<Rightarrow> RainForecast \<Rightarrow> error + RainForecast" where
  "scanHourly parseHour date h [] rf = Inr rf"
| "scanHourly parseHour date h (js # rest) rf =
     bindE (hourlyStep parseHour date h js rf) (scanHourly parseHour date h rest)"

definition rainDay ::
  "(string \<Rightarrow> GoTime option) \<Rightarrow> (string \<Rightarrow> GoTime option) \<Rightarrow> rainResponse
     \<Rightarrow> nat \<times> string \<Rightarrow> error + RainForecast" where
  "rainDay parseDay parseHour r ids =
     (case ids of (i, dateStr) \<Rightarrow>
        (case parseDay dateStr of
           None \<Rightarrow> Inl (DateParse dateStr)
         | Some date \<Rightarrow>
             bindE (goIndex (PrecipProb_rd (Daily r)) i) (\<lambda>pp.
             bindE (goIndex (PrecipSum_rd (Daily r)) i) (\<lambda>mm.
               scanHourly parseHour date (Hourly r)
                 (enumerate 0 (Time_rh (Hourly r)))
                 \<lparr>Date_rf = date, PrecipProb_rf = pp, PrecipMM = mm,
                  MorningRainProb = [], MorningRainMM = [], AfternoonProb = []\<rparr>))))"

fun toRainForecasts_loop ::
  "(string \<Rightarrow> GoTime option) \<Rightarrow> (string \<Rightarrow> GoTime option) \<Rightarrow> rainResponse
     \<Rightarrow> (nat \<times> string) list \<Rightarrow> RainForecast list \<Rightarrow> error + RainForecast list" where
  "toRainForecasts_loop parseDay parseHour r [] out = Inr out"
| "toRainForecasts_loop parseDay parseHour r (ids # rest) out =
     bindE (rainDay parseDay parseHour r ids) (\<lambda>rf.
       toRainForecasts_loop parseDay parseHour r rest (out @ [rf]))"

definition toRainForecasts ::
  "(string \<Rightarrow> GoTime option) \<Rightarrow> (string \<Rightarrow> GoTime option) \<Rightarrow> rainResponse
     \<Rightarrow> error + RainForecast list" where
  "toRainForecasts parseDay parseHour r =
     (if length (Time_rd (Daily r)) = 0 then Inl EmptyData
      else toRainForecasts_loop parseDay parseHour r (enumerate 0 (Time_rd (Daily r))) [])"

subsection \<open>The two layouts of the standard parser\<close>

text \<open>
  For running the normalizers on concrete payloads: \<^verbatim>\<open>time.Parse\<close> on the layouts
  \<^verbatim>\<open>"2006-01-02"\<close> and \<^verbatim>\<open>"2006-01-02T15:04"\<close>, after the standard library's
  \<^verbatim>\<open>time/format.go\<close>. The year is four digits; month, day and minute are two
  digits each (\<^verbatim>\<open>getnum\<close> with \<^verbatim>\<open>fixed\<close> set) and the hour is one or two digits;
  the literal characters must match; month, hour and minute are range-checked, the
  day against the length of the month; nothing may follow.
\<close>

definition isDigit :: "char \<Rightarrow> bool" where
  "isDigit c = (48 \<le> (of_char c :: nat) \<and> (of_char c :: nat) \<le> 57)"

definition digitVal :: "char \<Rightarrow> int" where
  "digitVal c = int (of_char c) - 48"

fun getnum :: "string \<Rightarrow> bool \<Rightarrow> (int \<times> string) option" where
  "getnum [] fixed = None"
| "getnum [c] fixed =
     (if \<not> isDigit c then None
      else if fixed then None
      else Some (digitVal c, []))"
| "getnum (c # d # s) fixed =
     (if \<not> isDigit c then None
      else if \<not> isDigit d then (if fixed then None else Some (digitVal c, d # s))
      else Some (digitVal c * 10 + digitVal d, s))"

fun longYear :: "string \<Rightarrow> (int \<times> string) option" where
  "longYear (a # b # c # d # s) =
     (if isDigit a \<and> isDigit b \<and> isDigit c \<and> isDigit d
      then Some (((digitVal a * 10 + digitVal b) * 10 + digitVal c) * 10 + digitVal d, s)
      else None)"
| "longYear s = None"

fun skip :: "string \<Rightarrow> char \<Rightarrow> string option" where
  "skip [] p = None"
| "skip (c # s) p = (if c = p then Some s else None)"

definition isLeap :: "int \<Rightarrow> bool" where
  "isLeap y = (y mod 4 = 0 \<and> (y mod 100 \<noteq> 0 \<or> y mod 400 = 0))"

definition daysIn :: "int \<Rightarrow> int \<Rightarrow> int" where
  "daysIn m y =
     (if m = 2 then (if isLeap y then 29 else 28)
      else if m = 4 \<or> m = 6 \<or> m = 9 \<or> m = 11 then 30 else 31)"

definition parseYMD :: "string \<Rightarrow> (int \<times> int \<times> int \<times> string) option" where
  "parseYMD v =
     Option.bind (longYear v) (\<lambda>(y, v1).
     Option.bind (skip v1 CHR ''-'') (\<lambda>v2.
     Option.bind (getnum v2 True) (\<lambda>(m, v3).
       if m \<le> 0 \<or> 12 < m then None
       else
     Option.bind (skip v3 CHR ''-'') (\<lambda>v4.
     Option.bind (getnum v4 True) (\<lambda>(d, v5). Some (y, m, d, v5))))))"

definition parseDate :: "string \<Rightarrow> GoTime option" where
  "parseDate v =
     Option.bind (parseYMD v) (\<lambda>(y, m, d, rest).
       if rest \<noteq> [] then None
       else if d < 1 \<or> d > daysIn m y then None
       else Some \<lparr>tYear = y, tMonth = m, tDay = d, tHour = 0, tMinute = 0\<rparr>)"

definition parseDateTime :: "string \<Rightarrow> GoTime option" where
  "parseDateTime v =
     Option.bind (parseYMD v) (\<lambda>(y, m, d, v1).
     Option.bind (skip v1 CHR ''T'') (\<lambda>v2.
     Option.bind (getnum v2 False) (\<lambda>(hh, v3).
       if hh < 0 \<or> 24 \<le> hh then None
       else
     Option.bind (skip v3 CHR '':'') (\<lambda>v4.
     Option.bind (getnum v4 True) (\<lambda>(mi, rest).
       if mi < 0 \<or> 60 \<le> mi then None
       else if rest \<noteq> [] then None
       else if d < 1 \<or> d > daysIn m y then None
       else Some \<lparr>tYear = y, tMonth = m, tDay = d, tHour = hh, tMinute = mi\<rparr>)))))"

subsection \<open>What the normalizers are to compute\<close>

text \<open>
  The record \<^verbatim>\<open>toForecastDays\<close> builds for the date at index \<open>i\<close>.
\<close>

definition mkDay :: "(string \<Rightarrow> GoTime option) \<Rightarrow> openMeteoDaily \<Rightarrow> nat \<Rightarrow> ForecastDay" where
  "mkDay parse d i =
     \<lparr>Date = the (parse (Time_om d ! i)), WindSpeedMax = WindSpeedMax_om d ! i,
      WindGustMax = WindGustMax_om d ! i, WindDirMean = WindDirMean_om d ! i\<rparr>"

text \<open>
  The attribution rule in the words of the specification: an hourly sample belongs to
  a day and a window of hours when its timestamp parses, has the year, month and day
  of the day's date, and its hour lies in the window. \<open>pick\<close> keeps, in order, the
  values whose timestamps satisfy a condition, and \<open>rainDaySpec\<close> is the record of one
  day under that rule.
\<close>

definition attributed ::
  "(string \<Rightarrow> GoTime option) \<Rightarrow> GoTime \<Rightarrow> int \<Rightarrow> int \<Rightarrow> string \<Rightarrow> bool" where
  "attributed parseHour date lo hi hourStr =
     (case parseHour hourStr of
        None \<Rightarrow> False
      | Some t \<Rightarrow> tYear t = tYear date \<and> tMonth t = tMonth date \<and> tDay t = tDay date
                  \<and> lo \<le> tHour t \<and> tHour t \<le> hi)"

definition pick :: "(string \<Rightarrow> bool) \<Rightarrow> string list \<Rightarrow> 'a list \<Rightarrow> 'a list" where
  "pick P ts vs = map snd (filter (\<lambda>sv. P (fst sv)) (zip ts vs))"

definition rainDaySpec ::
  "(string \<Rightarrow> GoTime option) \<Rightarrow> rainHourly \<Rightarrow> GoTime \<Rightarrow> int \<Rightarrow> real \<Rightarrow> RainForecast" where
  "rainDaySpec parseHour h date pp mm =
     \<lparr>Date_rf = date, PrecipProb_rf = pp, PrecipMM = mm,
      MorningRainProb = pick (attributed parseHour date 6 10) (Time_rh h) (PrecipProb_rh h),
      MorningRainMM = pick (attributed parseHour date 6 10) (Time_rh h) (Precip_rh h),
      AfternoonProb = pick (attributed parseHour date 15 18) (Time_rh h) (PrecipProb_rh h)\<rparr>"

text \<open>
  A rain payload of one day with six hourly samples: 07:15, 16:00 and 12:00 on the
  day, 07:00 and 16:00 on the next day, and a timestamp that does not parse.
\<close>

definition rainExample :: rainResponse where
  "rainExample =
     \<lparr>Daily = \<lparr>Time_rd = [''2024-01-01''], PrecipSum_rd = [3 / 2], PrecipProb_rd = [40]\<rparr>,
      Hourly = \<lparr>Time_rh = [''2024-01-01T07:15'', ''2024-01-01T16:00'', ''2024-01-01T12:00'',
                            ''2024-01-02T07:00'', ''2024-01-02T16:00'', ''07:15''],
                PrecipProb_rh = [10, 20, 30, 40, 50, 60],
                Precip_rh = [1 / 10, 2 / 10, 3 / 10, 4 / 10, 5 / 10, 6 / 10]\<rparr>\<rparr>"

section \<open>Report builder\<close>

text \<open>
  Go strings are byte sequences, and so are the strings here. The aeroplane marker of
  the source is the code points U+2708 U+FE0F, six bytes in UTF-8.
\<close>

definition airplane :: string where
  "airplane = [CHR 0xE2, CHR 0x9C, CHR 0x88, CHR 0xEF, CHR 0xB8, CHR 0x8F]"

definition newline :: string where
  "newline = [CHR 0x0A]"

text \<open>The verb \<^verbatim>\<open>%d\<close> of \<^verbatim>\<open>fmt.Sprintf\<close>: the decimal digits, with a sign when negative.\<close>

fun natDigits :: "nat \<Rightarrow> string" where
  "natDigits n =
     (if n < 10 then [''0123456789'' ! n]
      else natDigits (n div 10) @ [''0123456789'' ! (n mod 10)])"

declare natDigits.simps [simp del]

definition fmtInt :: "int \<Rightarrow> string" where
  "fmtInt i = (if i < 0 then CHR ''-'' # natDigits (nat (- i)) else natDigits (nat i))"


text \<open>
  What the cycle takes from outside the repository: the standard library's rendering
  of a date by \<^verbatim>\<open>Format("Mon 02 Jan")\<close> and by \<^verbatim>\<open>Format("2006-01-02")\<close>, of a
  number by the verbs \<^verbatim>\<open>%4.0f\<close>, \<^verbatim>\<open>%8.1f\<close> and \<^verbatim>\<open>%7.1f\<close>, the test
  \<^verbatim>\<open>strings.TrimSpace(name) == ""\<close>, and the answer of the Telegram service to a
  message for a bot token and a chat, given the messages handed over before it
  (\<open>None\<close> for success).
\<close>

record Env =
  fmtDate :: "GoTime \<Rightarrow> string"
  fmtDateISO :: "GoTime \<Rightarrow> string"
  fmtWind :: "real \<Rightarrow> string"
  fmtWind1 :: "real \<Rightarrow> string"
  fmtGust1 :: "real \<Rightarrow> string"
  blank :: "string \<Rightarrow> bool"
  telegram :: "string \<Rightarrow> string \<Rightarrow> string list \<Rightarrow> string \<Rightarrow> string option"

definition formatTelegramTable :: "string \<Rightarrow> string" where
  "formatTelegramTable table = ''```'' @ newline @ table @ ''```''"



definition countEasterlyDays :: "ForecastDay list \<Rightarrow> int" where
  "countEasterlyDays days =
     foldl (\<lambda>count d. if isEasterly (WindDirMean d) then count + 1 else count) 0 days"

text \<open>
  \<^verbatim>\<open>buildEasterlyAnalysis\<close> computes three local values and formats them;
  \<open>easterlyCounts\<close> is the three values \<open>(dominant, eastCount, westCount)\<close>.
\<close>

definition easterlyCounts :: "ForecastDay list \<Rightarrow> string \<times> int \<times> int" where
  "easterlyCounts days =
     (let eastCount = countEasterlyDays days;
          westCount = int (length days) - eastCount;
          dominant = (if eastCount > westCount then ''E '' @ airplane
                      else if westCount > eastCount then ''W''
                      else ''Mixed'')
      in (dominant, eastCount, westCount))"

definition buildEasterlyAnalysis :: "ForecastDay list \<Rightarrow> string" where
  "buildEasterlyAnalysis days =
     (case easterlyCounts days of (dominant, eastCount, westCount) \<Rightarrow>
        ''Dominant: '' @ dominant @ '' | East: '' @ fmtInt eastCount
        @ '' days | West: '' @ fmtInt westCount @ '' days'' @ newline)"

section \<open>Prompt builder\<close>

definition fallbackLocation :: "Env \<Rightarrow> string \<Rightarrow> string" where
  "fallbackLocation env name = (if blank env name then ''the target location'' else name)"


section \<open>Notification dispatcher and orchestrator\<close>

text \<open>
  The observable effect of a cycle is the sequence of messages handed to
  \<^verbatim>\<open>sendTelegramMessage\<close>, delivered or not; it is the state \<open>sent\<close>. The console
  output of the cycle is left out.
\<close>

record World =
  sent :: "string list"

definition sendTelegramMessage :: "Env \<Rightarrow> Config \<Rightarrow> string \<Rightarrow> World \<Rightarrow> string option \<times> World" where
  "sendTelegramMessage env config message w =
     (telegram env (TelegramToken config) (TelegramChatID config) (sent w) message,
      w\<lparr>sent := sent w @ [message]\<rparr>)"


text \<open>
  The other version of the agent package (the one of \<open>degToCompassNESW\<close>) has the same
  loop without the analysis: its table has one column more, its prompt is another
  text, and its messages are the fenced table and the summary. Its functions carry
  the suffix \<open>NESW\<close>.
\<close>

definition tableRowNESW :: "Env \<Rightarrow> ForecastDay \<Rightarrow> string" where
  "tableRowNESW env day =
     fmtDateISO env (Date day) @ '' | '' @ fmtWind1 env (WindSpeedMax day) @ '' | ''
     @ fmtGust1 env (WindGustMax day) @ '' | '' @ degToCompassNESW (WindDirMean day) @ newline"

definition buildForecastTableNESW :: "Env \<Rightarrow> ForecastDay list \<Rightarrow> string" where
  "buildForecastTableNESW env days =
     foldl (\<lambda>b day. b @ tableRowNESW env day)
       (''Date        | Wind Max | Gust Max | Dir'' @ newline
        @ ''------------+----------+---------+------'' @ newline)
       days"

definition tab :: string where
  "tab = [CHR 0x09]"

definition dquote :: string where
  "dquote = [CHR 0x22]"

definition buildPromptNESW :: "string \<Rightarrow> ForecastDay list \<Rightarrow> string \<Rightarrow> string" where
  "buildPromptNESW location days table =
     ''Summarize the next 15 days wind forecast for '' @ location
     @ '' in a very compact way:'' @ newline
     @ tab @ ''- Predominant wind direction (just state '' @ dquote @ ''Predominant: E''
     @ dquote @ '' or '' @ dquote @ ''W'' @ dquote @ '' or '' @ dquote @ ''N'' @ dquote
     @ '' etc.)'' @ newline
     @ tab @ ''- List any significant wind direction changes with dates'' @ newline
     @ tab @ ''- Highlight all periods with easterly winds (E, ENE, ESE, or SE) if any''
     @ newline
     @ tab @ ''- Keep it brief and suitable for a quick daily aviation risk check'' @ newline
     @ newline
     @ tab @ ''Tabular data:'' @ newline
     @ tab @ table @ newline
     @ tab"

definition runCycleNESW :: "Env \<Rightarrow> Agent \<Rightarrow> World \<Rightarrow> string + World" where
  "runCycleNESW env a w =
     (case Weather (cfg a) of
        None \<Rightarrow> Inl ''weather client is missing''
      | Some fetch \<Rightarrow>
     (case Ollama (cfg a) of
        None \<Rightarrow> Inl ''ollama client is missing''
      | Some generate \<Rightarrow>
     (case fetch (ForecastDays (cfg a)) of (forecast, err) \<Rightarrow>
        (let location = fallbackLocation env (LocationName (cfg a));
             report = buildForecastTableNESW env forecast;
             prompt = buildPromptNESW location forecast report
         in case generate prompt of
              Inl err \<Rightarrow>
                if TelegramToken (cfg a) \<noteq> [] \<and> TelegramChatID (cfg a) \<noteq> []
                then
                  (case sendTelegramMessage env (cfg a) (formatTelegramTable report) w of
                     (err2, w1) \<Rightarrow> Inr w1)
                else Inr w
            | Inr summary \<Rightarrow>
                if TelegramToken (cfg a) \<noteq> [] \<and> TelegramChatID (cfg a) \<noteq> []
                then
                  (case sendTelegramMessage env (cfg a) (formatTelegramTable report) w of
                     (err1, w1) \<Rightarrow>
                       (case sendTelegramMessage env (cfg a) summary w1 of
                          (err2, w2) \<Rightarrow> Inr w2))
                else Inr w))))"

text \<open>
  The end of the loop body: the next run time. An instant is a number of nanoseconds
  since the Unix epoch, in UTC; Go's clock has no leap seconds, so the calendar day of
  an instant is its quotient by the length of a day, and \<^verbatim>\<open>time.Date\<close> on the year,
  month and day of \<open>now\<close> with an hour and a minute is the start of that day plus
  these.
\<close>

definition nsPerMinute :: int where
  "nsPerMinute = 60 * 1000000000"

definition nsPerHour :: int where
  "nsPerHour = 60 * nsPerMinute"

definition nsPerDay :: int where
  "nsPerDay = 24 * nsPerHour"

definition todayAt :: "int \<Rightarrow> int \<Rightarrow> int \<Rightarrow> int" where
  "todayAt now runHour runMinute =
     (now div nsPerDay) * nsPerDay + runHour * nsPerHour + runMinute * nsPerMinute"

definition nextRun :: "int \<Rightarrow> int \<Rightarrow> int \<Rightarrow> int" where
  "nextRun now runHour runMinute =
     (let next = todayAt now runHour runMinute
      in if \<not> now < next then next + 24 * nsPerHour else next)"

subsection \<open>A sample environment\<close>




section \<open>Properties of the rounding\<close>

lemma ilog2_bounds: "0 < n \<Longrightarrow> 2 ^ ilog2 n \<le> n \<and> n < 2 ^ Suc (ilog2 n)"
proof (induction n rule: ilog2.induct)
  case (1 n)
  show ?case
  proof (cases "n < 2")
    case True
    with "1.prems" show ?thesis by (simp add: ilog2.simps [of n])
  next
    case False
    then have h: "0 < n div 2" by simp
    from "1.IH" [OF False h]
    have "2 ^ ilog2 (n div 2) \<le> n div 2" "n div 2 < 2 ^ Suc (ilog2 (n div 2))"
      by simp_all
    then have "2 * 2 ^ ilog2 (n div 2) \<le> n" "n < 2 * 2 ^ Suc (ilog2 (n div 2))"
      by linarith+
    with False show ?thesis by (simp add: ilog2.simps [of n])
  qed
qed

lemma ilog2_unique:
  assumes "2 ^ E \<le> n" and "n < 2 ^ Suc E"
  shows "ilog2 n = E"
proof -
  have "(0::int) < 2 ^ E" by simp
  with assms(1) have n: "0 < n" by linarith
  from ilog2_bounds [OF n] have b: "2 ^ ilog2 n \<le> n" "n < 2 ^ Suc (ilog2 n)" by simp_all
  have "(2::int) ^ E < 2 ^ Suc (ilog2 n)" using assms(1) b(2) by linarith
  then have "E < Suc (ilog2 n)"
    by (simp only: power_strict_increasing_iff [of 2] one_less_numeral_iff semiring_norm)
  moreover have "(2::int) ^ ilog2 n < 2 ^ Suc E" using assms(2) b(1) by linarith
  then have "ilog2 n < Suc E"
    by (simp only: power_strict_increasing_iff [of 2] one_less_numeral_iff semiring_norm)
  ultimately show ?thesis by simp
qed

lemma expo_binade:
  assumes "2 ^ E \<le> x" and "x < 2 ^ Suc E"
  shows "expo x = int E"
proof -
  have one: "1 \<le> x"
  proof -
    have "(1::real) \<le> 2 ^ E" by simp
    with assms(1) show ?thesis by linarith
  qed
  have "real_of_int (2 ^ E) \<le> x" using assms(1) by simp
  then have lo: "2 ^ E \<le> \<lfloor>x\<rfloor>" by (simp only: le_floor_iff)
  have "x < real_of_int (2 ^ Suc E)" using assms(2) by simp
  then have hi: "\<lfloor>x\<rfloor> < 2 ^ Suc E" by (simp only: floor_less_iff)
  show ?thesis
    using one ilog2_unique [OF lo hi] by (simp add: expo_def)
qed

lemma roundFloat64_binade:
  assumes "2 ^ E \<le> x" and "x < 2 ^ Suc E"
  shows "roundFloat64 x = real_of_int (roundEven (x / pow2 (int E - 52))) * pow2 (int E - 52)"
proof -
  have "(0::real) < 2 ^ E" by simp
  with assms(1) have pos: "0 < x" by linarith
  show ?thesis
    using pos expo_binade [OF assms] by (simp add: roundFloat64_def Let_def)
qed

lemma roundEven_of_int [simp]: "roundEven (real_of_int m) = m"
  by (simp add: roundEven_def)

lemma roundEven_ge_iff:
  assumes "even K"
  shows "(K \<le> roundEven q) = (real_of_int K - 1 / 2 \<le> q)"
proof -
  define f where "f = \<lfloor>q\<rfloor>"
  have fq: "real_of_int f \<le> q" "q < real_of_int f + 1"
    unfolding f_def by linarith+
  have re: "roundEven q =
      (if q < real_of_int f + 1 / 2 then f
       else if real_of_int f + 1 / 2 < q then f + 1
       else if even f then f else f + 1)"
    by (auto simp add: roundEven_def Let_def f_def)
  consider "f \<le> K - 2" | "f = K - 1" | "K \<le> f" by linarith
  then show ?thesis
  proof cases
    case 1
    then have "real_of_int f \<le> real_of_int K - 2" by linarith
    with fq 1 show ?thesis by (auto simp add: re)
  next
    case 2
    then have o: "odd f" using assms by simp
    have r2: "roundEven q = (if q < real_of_int f + 1 / 2 then f else f + 1)"
      using o by (simp add: re)
    show ?thesis
      using fq unfolding r2 2 by auto
  next
    case 3
    then have "real_of_int K \<le> real_of_int f" by linarith
    with fq 3 show ?thesis by (auto simp add: re)
  qed
qed

lemma roundFloat64_ge_iff:
  assumes "2 ^ E \<le> x" and "x < 2 ^ Suc E" and "E \<le> 51"
  shows "(real_of_int k \<le> roundFloat64 x) = (real_of_int k - 1 / 2 ^ (53 - E) \<le> x)"
proof -
  define n where "n = 52 - E"
  have p: "pow2 (int E - 52) = 1 / 2 ^ n"
    using assms(3) by (simp add: pow2_def n_def nat_diff_distrib)
  have n1: "n = Suc (51 - E)" "53 - E = Suc n"
    using assms(3) by (simp_all add: n_def)
  have ev: "even (k * 2 ^ n)"
    by (simp add: n1(1))
  have "roundFloat64 x = real_of_int (roundEven (x * 2 ^ n)) / 2 ^ n"
    using roundFloat64_binade [OF assms(1,2)] by (simp add: p)
  then have "(real_of_int k \<le> roundFloat64 x)
      = (real_of_int k * 2 ^ n \<le> real_of_int (roundEven (x * 2 ^ n)))"
    by (simp add: pos_le_divide_eq)
  also have "\<dots> = (k * 2 ^ n \<le> roundEven (x * 2 ^ n))"
    by (metis of_int_le_iff of_int_mult of_int_numeral of_int_power)
  also have "\<dots> = (real_of_int (k * 2 ^ n) - 1 / 2 \<le> x * 2 ^ n)"
    by (rule roundEven_ge_iff [OF ev])
  also have "\<dots> = ((real_of_int k - 1 / 2 ^ Suc n) * 2 ^ n \<le> x * 2 ^ n)"
    by (simp add: algebra_simps)
  also have "\<dots> = (real_of_int k - 1 / 2 ^ Suc n \<le> x)"
    by (simp only: mult_le_cancel_right_pos zero_less_power zero_less_numeral)
  finally show ?thesis by (simp only: n1(2))
qed

lemma roundFloat64_exact:
  assumes "2 ^ E \<le> x" and "x < 2 ^ Suc E" and "E \<le> 52" and "x * 2 ^ (52 - E) = real_of_int m"
  shows "roundFloat64 x = x"
proof -
  have p: "pow2 (int E - 52) = 1 / 2 ^ (52 - E)"
    using assms(3) by (cases "E = 52") (simp_all add: pow2_def nat_diff_distrib)
  have "roundFloat64 x = real_of_int (roundEven (x * 2 ^ (52 - E))) / 2 ^ (52 - E)"
    using roundFloat64_binade [OF assms(1,2)] by (simp add: p)
  also have "\<dots> = x"
    unfolding assms(4) roundEven_of_int
    using assms(4) [symmetric] by simp
  finally show ?thesis .
qed

lemma roundFloat64_uminus: "roundFloat64 (- x) = - roundFloat64 x"
  by (simp add: roundFloat64_def Let_def)

lemma roundFloat64_0 [simp]: "roundFloat64 0 = 0"
  by (simp add: roundFloat64_def)

lemma roundFloat64_of_int_pos:
  assumes "0 < k" and "k < 2 ^ 53"
  shows "roundFloat64 (real_of_int k) = real_of_int k"
proof -
  define E where "E = ilog2 k"
  from ilog2_bounds [OF assms(1)] have b: "2 ^ E \<le> k" "k < 2 ^ Suc E"
    by (simp_all add: E_def)
  have "(2::int) ^ E < 2 ^ 53" using b(1) assms(2) by linarith
  then have "E < 53"
    by (simp only: power_strict_increasing_iff [of 2] one_less_numeral_iff semiring_norm)
  then have E: "E \<le> 52" by simp
  have lo: "2 ^ E \<le> real_of_int k"
    using b(1) by (metis of_int_le_iff of_int_numeral of_int_power)
  have hi: "real_of_int k < 2 ^ Suc E"
    using b(2) by (metis of_int_less_iff of_int_numeral of_int_power)
  have m: "real_of_int k * 2 ^ (52 - E) = real_of_int (k * 2 ^ (52 - E))"
    by simp
  show ?thesis
    by (rule roundFloat64_exact [OF lo hi E m])
qed

lemma roundFloat64_of_int:
  assumes "- (2 ^ 53) < k" and "k < 2 ^ 53"
  shows "roundFloat64 (real_of_int k) = real_of_int k"
proof -
  consider "k = 0" | "0 < k" | "k < 0" by linarith
  then show ?thesis
  proof cases
    case 1
    then show ?thesis by simp
  next
    case 2
    then show ?thesis using assms(2) by (rule roundFloat64_of_int_pos)
  next
    case 3
    then have "0 < - k" "- k < 2 ^ 53" using assms(1) by simp_all
    then have "roundFloat64 (real_of_int (- k)) = real_of_int (- k)"
      by (rule roundFloat64_of_int_pos)
    then show ?thesis by (simp add: roundFloat64_uminus)
  qed
qed

lemma roundFloat64_numeral [simp]:
  "(numeral n :: int) < 2 ^ 53 \<Longrightarrow> roundFloat64 (numeral n) = numeral n"
  using roundFloat64_of_int [of "numeral n"] by simp

lemma roundFloat64_neg_numeral [simp]:
  "(numeral n :: int) < 2 ^ 53 \<Longrightarrow> roundFloat64 (- numeral n) = - numeral n"
  using roundFloat64_of_int [of "- numeral n"] by simp

lemma goTrunc_numeral [simp]:
  "(numeral k :: int) < 2 ^ 63 \<Longrightarrow> goTrunc (numeral k) = numeral k"
  by (simp add: goTrunc_def)

lemma goTrunc_neg_numeral [simp]:
  "(numeral k :: int) \<le> 2 ^ 63 \<Longrightarrow> goTrunc (- numeral k) = - numeral k"
  by (simp add: goTrunc_def)

lemma goTrunc_of_int: "- (2 ^ 63) \<le> n \<Longrightarrow> n < 2 ^ 63 \<Longrightarrow> goTrunc (real_of_int n) = n"
  by (simp add: goTrunc_def)

lemma goRem_nonneg: "0 \<le> a \<Longrightarrow> 0 < b \<Longrightarrow> goRem a b = a mod b"
  by (simp add: goRem_def)

lemma roundFloat64_binade8:
  assumes "256 \<le> x" and "x < 512"
  shows "roundFloat64 x = real_of_int (roundEven (x * 2 ^ 44)) / 2 ^ 44"
proof -
  have "(2::real) ^ 8 \<le> x" "x < 2 ^ Suc 8" using assms by simp_all
  from roundFloat64_binade [OF this] show ?thesis by (simp add: pow2_def)
qed

text \<open>
  For a sum in \<open>[360,720)\<close>, the sum of 360 and an angle of \<open>[0,360)\<close>: the rounded
  sum reaches a whole number \<open>k\<close> exactly when the sum is at most half a spacing
  below \<open>k\<close>, the spacing being \<open>2^-44\<close> below 512 and \<open>2^-43\<close> from 512 on.
\<close>

lemma sum360_ge_low:
  assumes "360 \<le> x" and "x < 720" and "k \<le> 512"
  shows "(real_of_int k \<le> roundFloat64 x) = (real_of_int k - 1 / 2 ^ 45 \<le> x)"
proof (cases "x < 512")
  case True
  have "(2::real) ^ 8 \<le> x" "x < 2 ^ Suc 8" using assms(1) True by simp_all
  from roundFloat64_ge_iff [OF this, of k] show ?thesis by simp
next
  case False
  have "(2::real) ^ 9 \<le> x" "x < 2 ^ Suc 9" using assms(2) False by simp_all
  from roundFloat64_ge_iff [OF this, of k]
  have "(real_of_int k \<le> roundFloat64 x) = (real_of_int k - 1 / 2 ^ 44 \<le> x)" by simp
  moreover have "real_of_int k \<le> 512" using assms(3) by linarith
  ultimately show ?thesis using False by auto
qed

lemma sum360_ge_high:
  assumes "360 \<le> x" and "x < 720" and "513 \<le> k"
  shows "(real_of_int k \<le> roundFloat64 x) = (real_of_int k - 1 / 2 ^ 44 \<le> x)"
proof (cases "x < 512")
  case True
  have "(2::real) ^ 8 \<le> x" "x < 2 ^ Suc 8" using assms(1) True by simp_all
  from roundFloat64_ge_iff [OF this, of k]
  have "(real_of_int k \<le> roundFloat64 x) = (real_of_int k - 1 / 2 ^ 45 \<le> x)" by simp
  moreover have "513 \<le> real_of_int k" using assms(3) by linarith
  ultimately show ?thesis using True by auto
next
  case False
  have "(2::real) ^ 9 \<le> x" "x < 2 ^ Suc 9" using assms(2) False by simp_all
  from roundFloat64_ge_iff [OF this, of k] show ?thesis by simp
qed

lemma wholeSum_facts:
  assumes "0 \<le> d" and "d < 360"
  shows "360 \<le> wholeSum d" and "wholeSum d \<le> 720"
    and "k \<le> 512 \<Longrightarrow> (k \<le> wholeSum d) = (real_of_int k - 360 - 1 / 2 ^ 45 \<le> d)"
    and "513 \<le> k \<Longrightarrow> (k \<le> wholeSum d) = (real_of_int k - 360 - 1 / 2 ^ 44 \<le> d)"
    and "normalizeDeg d = real_of_int (wholeSum d mod 360)"
proof -
  have x: "360 \<le> d + 360" "d + 360 < 720" using assms by simp_all
  have fl: "(k \<le> wholeSum d) = (real_of_int k \<le> roundFloat64 (d + 360))" for k
    by (simp add: wholeSum_def le_floor_iff)
  show low: "(k \<le> wholeSum d) = (real_of_int k - 360 - 1 / 2 ^ 45 \<le> d)" if "k \<le> 512" for k
    unfolding fl sum360_ge_low [OF x that] by auto
  show high: "(k \<le> wholeSum d) = (real_of_int k - 360 - 1 / 2 ^ 44 \<le> d)" if "513 \<le> k" for k
    unfolding fl sum360_ge_high [OF x that] by auto
  show a: "360 \<le> wholeSum d"
    using low [of 360] assms(1) by simp
  have "\<not> 721 \<le> wholeSum d"
    using high [of 721] assms(2) by simp
  then show b: "wholeSum d \<le> 720" by simp
  have nn: "0 \<le> roundFloat64 (d + 360)"
    using a by (simp add: wholeSum_def le_floor_iff)
  have "goTrunc (roundFloat64 (d + 360)) = wholeSum d"
    using nn a b by (simp add: goTrunc_def wholeSum_def Let_def)
  then show "normalizeDeg d = real_of_int (wholeSum d mod 360)"
    using a by (simp add: normalizeDeg_def goRem_nonneg)
qed

section \<open>Properties of the compass classifier\<close>

text \<open>
  On an angle of \<open>[0,360)\<close> the statement does normalize: its result is a whole
  number of degrees in \<open>[0,360)\<close>, and normalizing again changes nothing.
\<close>

lemma normalizeDeg_range:
  assumes "0 \<le> d" and "d < 360"
  shows "0 \<le> normalizeDeg d \<and> normalizeDeg d < 360
         \<and> normalizeDeg (normalizeDeg d) = normalizeDeg d"
proof -
  define m where "m = wholeSum d mod 360"
  have m: "0 \<le> m" "m < 360" by (simp_all add: m_def)
  have nd: "normalizeDeg d = real_of_int m"
    using wholeSum_facts(5) [OF assms] by (simp add: m_def)
  have s: "real_of_int m + 360 = real_of_int (m + 360)" by simp
  have r: "roundFloat64 (real_of_int (m + 360)) = real_of_int (m + 360)"
    using m by (intro roundFloat64_of_int) simp_all
  have g: "goTrunc (real_of_int (m + 360)) = m + 360"
    using m by (intro goTrunc_of_int) simp_all
  have "goRem (m + 360) 360 = m"
    using m by (simp add: goRem_nonneg)
  then have "normalizeDeg (real_of_int m) = real_of_int m"
    unfolding normalizeDeg_def s r g by simp
  then show ?thesis using m nd by simp
qed

text \<open>
  C1. The claim: for every angle \<open>d\<close> the normalization yields a value in \<open>[0,360)\<close>
  and classifying the normalized angle gives the class of \<open>d\<close>, for both classifiers.
  The code adds 360 once and then takes Go's truncated remainder, so an angle below
  \<open>-360\<close> keeps its sign. At \<open>d = -600\<close> (the direction 120, East) the statement
  yields \<open>-240\<close>, the two-point classifier answers West and the four-point classifier
  North, while the normalized angle \<open>-240\<close> is classified East by both.
\<close>

theorem normalizeDeg_below_minus_360:
  "normalizeDeg (- 600) = - 240
   \<and> \<not> 0 \<le> normalizeDeg (- 600)
   \<and> degToCompass (- 600) = ''W''
   \<and> degToCompass (normalizeDeg (- 600)) = ''E''
   \<and> degToCompassNESW (- 600) = ''N''
   \<and> degToCompassNESW (normalizeDeg (- 600)) = ''E''"
  by (simp add: normalizeDeg_def goRem_def degToCompass_def degToCompassNESW_def)

text \<open>
  C2, as stated: the two-point classifier answers East exactly on the open interval
  \<open>(0,180)\<close>. It does not: the conversion to \<^verbatim>\<open>int\<close> drops the fraction, so half a
  degree is normalized to 0 and answered West.
\<close>

theorem degToCompass_half_degree_counterexample:
  "(0::real) < 1 / 2 \<and> (1::real) / 2 < 180 \<and> degToCompass (1 / 2) = ''W''"
proof -
  have r: "roundFloat64 (1 / 2 + 360) = 721 / 2"
    by (subst roundFloat64_binade8) (simp_all add: roundEven_def)
  have g: "goTrunc (721 / 2) = 360"
    by (simp add: goTrunc_def)
  have "normalizeDeg (1 / 2) = 0"
    unfolding normalizeDeg_def r g by (simp add: goRem_def)
  then show ?thesis
    by (simp add: degToCompass_def)
qed

text \<open>
  C2, amended. The two-point classifier answers East exactly when the whole number of
  degrees left by the normalization lies in \<open>(0,180)\<close>, and West otherwise. On an
  angle \<open>d\<close> of \<open>[0,360)\<close> as it is given that is East exactly for
  \<open>1 - 2^-45 \<le> d < 180 - 2^-44\<close>: the fraction is dropped, after the sum with 360 has
  been rounded to a \<^verbatim>\<open>float64\<close>. 0 and 180 degrees are West, 90 is East, 270 is
  West; and \<open>isEasterly d\<close> holds exactly when the classifier answers East for \<open>d\<close>,
  for every \<open>d\<close>.
\<close>

theorem degToCompass_two_point:
  "degToCompass d = (if 0 < normalizeDeg d \<and> normalizeDeg d < 180 then ''E'' else ''W'')
   \<and> (0 \<le> d \<and> d < 360 \<longrightarrow>
        degToCompass d = (if 1 - 1 / 2 ^ 45 \<le> d \<and> d < 180 - 1 / 2 ^ 44 then ''E'' else ''W''))
   \<and> degToCompass 0 = ''W'' \<and> degToCompass 180 = ''W''
   \<and> degToCompass 90 = ''E'' \<and> degToCompass 270 = ''W''
   \<and> isEasterly d = (degToCompass d = ''E'')"
proof -
  have norm: "degToCompass d =
      (if 0 < normalizeDeg d \<and> normalizeDeg d < 180 then ''E'' else ''W'')"
    by (simp add: degToCompass_def Let_def)
  have given: "degToCompass d =
      (if 1 - 1 / 2 ^ 45 \<le> d \<and> d < 180 - 1 / 2 ^ 44 then ''E'' else ''W'')"
    if "0 \<le> d \<and> d < 360"
  proof -
    from that have d: "0 \<le> d" "d < 360" by simp_all
    define t where "t = wholeSum d"
    have t: "360 \<le> t" "t \<le> 720"
      using wholeSum_facts(1,2) [OF d] by (simp_all add: t_def)
    have nd: "normalizeDeg d = real_of_int (t mod 360)"
      using wholeSum_facts(5) [OF d] by (simp add: t_def)
    have lo: "(361 \<le> t) = (1 - 1 / 2 ^ 45 \<le> d)"
      using wholeSum_facts(3) [OF d, of 361] by (simp add: t_def)
    have hi: "(540 \<le> t) = (180 - 1 / 2 ^ 44 \<le> d)"
      using wholeSum_facts(4) [OF d, of 540] by (simp add: t_def)
    have "(0 < t mod 360 \<and> t mod 360 < 180) = (361 \<le> t \<and> \<not> 540 \<le> t)"
      using t by presburger
    then have "(0 < normalizeDeg d \<and> normalizeDeg d < 180)
        = (1 - 1 / 2 ^ 45 \<le> d \<and> d < 180 - 1 / 2 ^ 44)"
      unfolding nd lo hi by (simp add: not_le)
    then show ?thesis unfolding norm by simp
  qed
  have pts: "degToCompass 0 = ''W''" "degToCompass 180 = ''W''"
    "degToCompass 90 = ''E''" "degToCompass 270 = ''W''"
    by (simp_all add: degToCompass_def normalizeDeg_def goRem_def)
  have easterly: "isEasterly d = (degToCompass d = ''E'')"
    by (simp add: isEasterly_def degToCompass_def Let_def)
  show ?thesis
    using norm given pts easterly by blast
qed

theorem degToCompass_two_point_witness:
  "degToCompass (1 - 1 / 2 ^ 53) = ''E'' \<and> degToCompass (180 - 1 / 2 ^ 45) = ''W''
   \<and> degToCompass 90 = ''E'' \<and> isEasterly 90"
proof -
  have h1: "(0::real) \<le> 1 - 1 / 2 ^ 53 \<and> (1::real) - 1 / 2 ^ 53 < 360" by simp
  have h2: "(0::real) \<le> 180 - 1 / 2 ^ 45 \<and> (180::real) - 1 / 2 ^ 45 < 360" by simp
  from degToCompass_two_point [of "1 - 1 / 2 ^ 53", THEN conjunct2, THEN conjunct1] h1
  have a: "degToCompass (1 - 1 / 2 ^ 53) = ''E''" by simp
  from degToCompass_two_point [of "180 - 1 / 2 ^ 45", THEN conjunct2, THEN conjunct1] h2
  have b: "degToCompass (180 - 1 / 2 ^ 45) = ''W''" by simp
  from degToCompass_two_point [of 90]
  have c: "degToCompass 90 = ''E'' \<and> isEasterly 90" by blast
  from a b c show ?thesis by simp
qed

text \<open>
  C8, as stated: the four-point classifier maps every angle of \<open>[0,360)\<close> by the
  half-open intervals, North below 30. It does not at the edge: the angle
  \<open>30 - 2^-48\<close> lies below 30, its sum with 360 rounds to 390, and the answer is East.
\<close>

theorem degToCompassNESW_below_30_counterexample:
  "(0::real) \<le> 30 - 1 / 2 ^ 48 \<and> (30::real) - 1 / 2 ^ 48 < 30
   \<and> degToCompassNESW (30 - 1 / 2 ^ 48) = ''E''"
proof -
  have r: "roundFloat64 (30 - 1 / 2 ^ 48 + 360) = 390"
    by (subst roundFloat64_binade8) (simp_all add: roundEven_def)
  have "normalizeDeg (30 - 1 / 2 ^ 48) = 30"
    unfolding normalizeDeg_def r by (simp add: goRem_def)
  then show ?thesis
    by (simp add: degToCompassNESW_def)
qed

text \<open>
  C8, amended. The four-point classifier maps the whole number of degrees left by the
  normalization by the half-open intervals East \<open>[30,150)\<close>, West \<open>[210,330)\<close>,
  South \<open>[150,210)\<close> and North for the rest. On an angle of \<open>[0,360)\<close> as it is
  given the same intervals hold with each bound lowered by half a spacing of the
  rounded sum: \<open>2^-45\<close> at 30 and 150, \<open>2^-44\<close> at 210 and 330. The boundary values
  go to the upper class: 30 East, 150 South, 210 West, 330 North.
\<close>

theorem degToCompassNESW_four_point:
  "degToCompassNESW d =
     (if 30 \<le> normalizeDeg d \<and> normalizeDeg d < 150 then ''E''
      else if 210 \<le> normalizeDeg d \<and> normalizeDeg d < 330 then ''W''
      else if 150 \<le> normalizeDeg d \<and> normalizeDeg d < 210 then ''S''
      else ''N'')
   \<and> (0 \<le> d \<and> d < 360 \<longrightarrow>
        degToCompassNESW d =
          (if 30 - 1 / 2 ^ 45 \<le> d \<and> d < 150 - 1 / 2 ^ 45 then ''E''
           else if 210 - 1 / 2 ^ 44 \<le> d \<and> d < 330 - 1 / 2 ^ 44 then ''W''
           else if 150 - 1 / 2 ^ 45 \<le> d \<and> d < 210 - 1 / 2 ^ 44 then ''S''
           else ''N''))
   \<and> degToCompassNESW 30 = ''E'' \<and> degToCompassNESW 150 = ''S''
   \<and> degToCompassNESW 210 = ''W'' \<and> degToCompassNESW 330 = ''N''"
proof -
  have norm: "degToCompassNESW d =
     (if 30 \<le> normalizeDeg d \<and> normalizeDeg d < 150 then ''E''
      else if 210 \<le> normalizeDeg d \<and> normalizeDeg d < 330 then ''W''
      else if 150 \<le> normalizeDeg d \<and> normalizeDeg d < 210 then ''S''
      else ''N'')"
    by (simp add: degToCompassNESW_def Let_def)
  have given: "degToCompassNESW d =
          (if 30 - 1 / 2 ^ 45 \<le> d \<and> d < 150 - 1 / 2 ^ 45 then ''E''
           else if 210 - 1 / 2 ^ 44 \<le> d \<and> d < 330 - 1 / 2 ^ 44 then ''W''
           else if 150 - 1 / 2 ^ 45 \<le> d \<and> d < 210 - 1 / 2 ^ 44 then ''S''
           else ''N'')"
    if "0 \<le> d \<and> d < 360"
  proof -
    from that have d: "0 \<le> d" "d < 360" by simp_all
    define t where "t = wholeSum d"
    have t: "360 \<le> t" "t \<le> 720"
      using wholeSum_facts(1,2) [OF d] by (simp_all add: t_def)
    have nd: "normalizeDeg d = real_of_int (t mod 360)"
      using wholeSum_facts(5) [OF d] by (simp add: t_def)
    have k390: "(390 \<le> t) = (30 - 1 / 2 ^ 45 \<le> d)"
      using wholeSum_facts(3) [OF d, of 390] by (simp add: t_def)
    have k510: "(510 \<le> t) = (150 - 1 / 2 ^ 45 \<le> d)"
      using wholeSum_facts(3) [OF d, of 510] by (simp add: t_def)
    have k570: "(570 \<le> t) = (210 - 1 / 2 ^ 44 \<le> d)"
      using wholeSum_facts(4) [OF d, of 570] by (simp add: t_def)
    have k690: "(690 \<le> t) = (330 - 1 / 2 ^ 44 \<le> d)"
      using wholeSum_facts(4) [OF d, of 690] by (simp add: t_def)
    have e: "(30 \<le> t mod 360 \<and> t mod 360 < 150) = (390 \<le> t \<and> \<not> 510 \<le> t)"
      using t by presburger
    have w: "(210 \<le> t mod 360 \<and> t mod 360 < 330) = (570 \<le> t \<and> \<not> 690 \<le> t)"
      using t by presburger
    have s: "(150 \<le> t mod 360 \<and> t mod 360 < 210) = (510 \<le> t \<and> \<not> 570 \<le> t)"
      using t by presburger
    have e': "(30 \<le> normalizeDeg d \<and> normalizeDeg d < 150)
        = (30 - 1 / 2 ^ 45 \<le> d \<and> d < 150 - 1 / 2 ^ 45)"
      using e unfolding nd k390 k510 by (simp add: not_le)
    have w': "(210 \<le> normalizeDeg d \<and> normalizeDeg d < 330)
        = (210 - 1 / 2 ^ 44 \<le> d \<and> d < 330 - 1 / 2 ^ 44)"
      using w unfolding nd k570 k690 by (simp add: not_le)
    have s': "(150 \<le> normalizeDeg d \<and> normalizeDeg d < 210)
        = (150 - 1 / 2 ^ 45 \<le> d \<and> d < 210 - 1 / 2 ^ 44)"
      using s unfolding nd k510 k570 by (simp add: not_le)
    show ?thesis unfolding norm e' w' s' by (rule refl)
  qed
  have pts: "degToCompassNESW 30 = ''E''" "degToCompassNESW 150 = ''S''"
    "degToCompassNESW 210 = ''W''" "degToCompassNESW 330 = ''N''"
    by (simp_all add: degToCompassNESW_def normalizeDeg_def goRem_def)
  show ?thesis
    using norm given pts by blast
qed

theorem degToCompassNESW_four_point_witness:
  "degToCompassNESW (59 / 2) = ''N'' \<and> degToCompassNESW (150 - 1 / 2 ^ 46) = ''S''"
proof -
  have h1: "(0::real) \<le> 59 / 2 \<and> (59::real) / 2 < 360" by simp
  have h2: "(0::real) \<le> 150 - 1 / 2 ^ 46 \<and> (150::real) - 1 / 2 ^ 46 < 360" by simp
  from degToCompassNESW_four_point [of "59 / 2", THEN conjunct2, THEN conjunct1] h1
  have a: "degToCompassNESW (59 / 2) = ''N''" by simp
  from degToCompassNESW_four_point [of "150 - 1 / 2 ^ 46", THEN conjunct2, THEN conjunct1] h2
  have b: "degToCompassNESW (150 - 1 / 2 ^ 46) = ''S''" by simp
  from a b show ?thesis by simp
qed

section \<open>Properties of the constructor\<close>

text \<open>
  C10. \<^verbatim>\<open>New\<close> stores 15 as the forecast day count when the configured count is
  zero or negative and keeps the configured count otherwise; every other field of the
  configuration is stored as given.
\<close>

theorem New_forecast_days:
  "ForecastDays (cfg (New c)) = (if ForecastDays c \<le> 0 then 15 else ForecastDays c)
   \<and> LocationName (cfg (New c)) = LocationName c
   \<and> Weather (cfg (New c)) = Weather c
   \<and> Ollama (cfg (New c)) = Ollama c
   \<and> TelegramToken (cfg (New c)) = TelegramToken c
   \<and> TelegramChatID (cfg (New c)) = TelegramChatID c"
  by (simp add: New_def)

theorem New_forecast_days_witness:
  "ForecastDays (cfg (New \<lparr>LocationName = ''London Heathrow'', ForecastDays = - 3,
      Weather = None, Ollama = None, TelegramToken = ''t'', TelegramChatID = ''42''\<rparr>)) = 15
   \<and> ForecastDays (cfg (New \<lparr>LocationName = ''London Heathrow'', ForecastDays = 7,
      Weather = None, Ollama = None, TelegramToken = ''t'', TelegramChatID = ''42''\<rparr>)) = 7"
  using New_forecast_days [of "\<lparr>LocationName = ''London Heathrow'', ForecastDays = - 3,
      Weather = None, Ollama = None, TelegramToken = ''t'', TelegramChatID = ''42''\<rparr>"]
    New_forecast_days [of "\<lparr>LocationName = ''London Heathrow'', ForecastDays = 7,
      Weather = None, Ollama = None, TelegramToken = ''t'', TelegramChatID = ''42''\<rparr>"]
  by simp

section \<open>Properties of the forecast normalizer\<close>

lemma bindE_simps [simp]: "bindE (Inl e) f = Inl e" "bindE (Inr x) f = f x"
  by (simp_all add: bindE_def)

lemma goIndex_in_range [simp]: "i < length xs \<Longrightarrow> goIndex xs i = Inr (xs ! i)"
  by (simp add: goIndex_def)

lemmas parse_defs = parseDate_def parseDateTime_def parseYMD_def isDigit_def digitVal_def
  daysIn_def isLeap_def

lemma find_map_index:
  "List.find P (map f xs) = map_option f (List.find (\<lambda>x. P (f x)) xs)"
  by (induction xs) simp_all

lemma toForecastDays_loop_result:
  assumes "\<forall>i\<in>set ixs. i < length (Time_om d) \<and> i < length (WindSpeedMax_om d)
             \<and> i < length (WindGustMax_om d) \<and> i < length (WindDirMean_om d)"
  shows "toForecastDays_loop parse d ixs out =
           (case List.find (\<lambda>i. parse (Time_om d ! i) = None) ixs of
              None \<Rightarrow> Inr (out @ map (mkDay parse d) ixs)
            | Some i \<Rightarrow> Inl (DateParse (Time_om d ! i)))"
  using assms
proof (induction ixs arbitrary: out)
  case Nil
  then show ?case by simp
next
  case (Cons i ixs)
  then show ?case
    by (cases "parse (Time_om d ! i)") (simp_all add: mkDay_def split: option.splits)
qed

lemma toForecastDays_checked:
  assumes "Time_om d \<noteq> []"
    and "length (WindSpeedMax_om d) = length (Time_om d)"
    and "length (WindGustMax_om d) = length (Time_om d)"
    and "length (WindDirMean_om d) = length (Time_om d)"
  shows "toForecastDays parse d =
           (case List.find (\<lambda>s. parse s = None) (Time_om d) of
              None \<Rightarrow> Inr (map (mkDay parse d) [0..<length (Time_om d)])
            | Some s \<Rightarrow> Inl (DateParse s))"
proof -
  have "List.find (\<lambda>s. parse s = None) (map (\<lambda>i. Time_om d ! i) [0..<length (Time_om d)])
          = map_option (\<lambda>i. Time_om d ! i)
              (List.find (\<lambda>i. parse (Time_om d ! i) = None) [0..<length (Time_om d)])"
    by (rule find_map_index)
  then have f: "List.find (\<lambda>s. parse s = None) (Time_om d)
          = map_option (\<lambda>i. Time_om d ! i)
              (List.find (\<lambda>i. parse (Time_om d ! i) = None) [0..<length (Time_om d)])"
    by (simp add: map_nth)
  have "toForecastDays parse d = toForecastDays_loop parse d [0..<length (Time_om d)] []"
    using assms by (simp add: toForecastDays_def)
  also have "\<dots> = (case List.find (\<lambda>i. parse (Time_om d ! i) = None) [0..<length (Time_om d)] of
              None \<Rightarrow> Inr ([] @ map (mkDay parse d) [0..<length (Time_om d)])
            | Some i \<Rightarrow> Inl (DateParse (Time_om d ! i)))"
    using assms by (intro toForecastDays_loop_result) simp
  finally show ?thesis
    unfolding f by (simp split: option.splits)
qed

text \<open>
  C4. \<^verbatim>\<open>toForecastDays\<close> fails with the empty-data error when there is no date;
  otherwise with the shape-mismatch error when one of the three metric arrays differs
  in length from the date array; otherwise with the date-parse error, naming the
  first date string the parser rejects, when there is one; and otherwise it succeeds.
  Whenever it succeeds the result has exactly one record per date, the record at
  position \<open>i\<close> holding the parsed date and the three metrics of position \<open>i\<close>. The
  checks are made in this order, so an empty date array is reported as empty data
  whatever the metric arrays hold.
\<close>

theorem toForecastDays_outcomes:
  "(Time_om d = [] \<longrightarrow> toForecastDays parse d = Inl EmptyData)
   \<and> (Time_om d \<noteq> []
        \<and> (length (WindSpeedMax_om d) \<noteq> length (Time_om d)
           \<or> length (WindGustMax_om d) \<noteq> length (Time_om d)
           \<or> length (WindDirMean_om d) \<noteq> length (Time_om d))
      \<longrightarrow> toForecastDays parse d = Inl ShapeMismatch)
   \<and> (Time_om d \<noteq> []
        \<and> length (WindSpeedMax_om d) = length (Time_om d)
        \<and> length (WindGustMax_om d) = length (Time_om d)
        \<and> length (WindDirMean_om d) = length (Time_om d)
      \<longrightarrow> toForecastDays parse d =
            (case List.find (\<lambda>s. parse s = None) (Time_om d) of
               Some s \<Rightarrow> Inl (DateParse s)
             | None \<Rightarrow> Inr (map (mkDay parse d) [0..<length (Time_om d)])))
   \<and> (\<forall>out. toForecastDays parse d = Inr out \<longrightarrow>
         length out = length (Time_om d)
         \<and> (\<forall>i<length out.
               parse (Time_om d ! i) = Some (Date (out ! i))
               \<and> WindSpeedMax (out ! i) = WindSpeedMax_om d ! i
               \<and> WindGustMax (out ! i) = WindGustMax_om d ! i
               \<and> WindDirMean (out ! i) = WindDirMean_om d ! i))"
proof -
  have empty: "toForecastDays parse d = Inl EmptyData" if "Time_om d = []"
    using that by (simp add: toForecastDays_def)
  have shape: "toForecastDays parse d = Inl ShapeMismatch"
    if "Time_om d \<noteq> [] \<and> (length (WindSpeedMax_om d) \<noteq> length (Time_om d)
           \<or> length (WindGustMax_om d) \<noteq> length (Time_om d)
           \<or> length (WindDirMean_om d) \<noteq> length (Time_om d))"
    using that by (auto simp add: toForecastDays_def)
  have checked: "toForecastDays parse d =
            (case List.find (\<lambda>s. parse s = None) (Time_om d) of
               Some s \<Rightarrow> Inl (DateParse s)
             | None \<Rightarrow> Inr (map (mkDay parse d) [0..<length (Time_om d)]))"
    if "Time_om d \<noteq> []
        \<and> length (WindSpeedMax_om d) = length (Time_om d)
        \<and> length (WindGustMax_om d) = length (Time_om d)
        \<and> length (WindDirMean_om d) = length (Time_om d)"
    using that by (simp add: toForecastDays_checked split: option.splits)
  have success: "length out = length (Time_om d)
         \<and> (\<forall>i<length out.
               parse (Time_om d ! i) = Some (Date (out ! i))
               \<and> WindSpeedMax (out ! i) = WindSpeedMax_om d ! i
               \<and> WindGustMax (out ! i) = WindGustMax_om d ! i
               \<and> WindDirMean (out ! i) = WindDirMean_om d ! i)"
    if ok: "toForecastDays parse d = Inr out" for out
  proof -
    from ok have pre: "Time_om d \<noteq> []" "length (WindSpeedMax_om d) = length (Time_om d)"
      "length (WindGustMax_om d) = length (Time_om d)"
      "length (WindDirMean_om d) = length (Time_om d)"
      by (auto simp add: toForecastDays_def split: if_splits)
    from ok toForecastDays_checked [OF pre, of parse]
    have nf: "List.find (\<lambda>s. parse s = None) (Time_om d) = None"
      and out: "out = map (mkDay parse d) [0..<length (Time_om d)]"
      by (auto split: option.splits)
    have "parse (Time_om d ! i) \<noteq> None" if "i < length (Time_om d)" for i
    proof -
      from that have "Time_om d ! i \<in> set (Time_om d)" by simp
      with nf show ?thesis by (auto simp add: find_None_iff)
    qed
    then show ?thesis
      by (auto simp add: out mkDay_def)
  qed
  show ?thesis
    using empty shape checked success by blast
qed

theorem toForecastDays_outcomes_witness:
  "toForecastDays parseDate
     \<lparr>Time_om = [], WindSpeedMax_om = [], WindGustMax_om = [], WindDirMean_om = []\<rparr>
     = Inl EmptyData
   \<and> toForecastDays parseDate
     \<lparr>Time_om = [''2024-01-01'', ''2024-01-02'', ''2024-01-03''], WindSpeedMax_om = [10, 12],
      WindGustMax_om = [20, 25], WindDirMean_om = [90, 270]\<rparr>
     = Inl ShapeMismatch
   \<and> toForecastDays parseDate
     \<lparr>Time_om = [''2024-01-01'', ''2024-02-30''], WindSpeedMax_om = [10, 12],
      WindGustMax_om = [20, 25], WindDirMean_om = [90, 270]\<rparr>
     = Inl (DateParse ''2024-02-30'')
   \<and> toForecastDays parseDate
     \<lparr>Time_om = [''2024-01-01'', ''2024-01-02''], WindSpeedMax_om = [10, 12],
      WindGustMax_om = [20, 25], WindDirMean_om = [90, 270]\<rparr>
     = Inr [\<lparr>Date = \<lparr>tYear = 2024, tMonth = 1, tDay = 1, tHour = 0, tMinute = 0\<rparr>,
             WindSpeedMax = 10, WindGustMax = 20, WindDirMean = 90\<rparr>,
            \<lparr>Date = \<lparr>tYear = 2024, tMonth = 1, tDay = 2, tHour = 0, tMinute = 0\<rparr>,
             WindSpeedMax = 12, WindGustMax = 25, WindDirMean = 270\<rparr>]"
  using
    toForecastDays_outcomes [where parse = parseDate and d =
      "\<lparr>Time_om = [], WindSpeedMax_om = [], WindGustMax_om = [], WindDirMean_om = []\<rparr>"]
    toForecastDays_outcomes [where parse = parseDate and d =
      "\<lparr>Time_om = [''2024-01-01'', ''2024-01-02'', ''2024-01-03''], WindSpeedMax_om = [10, 12],
        WindGustMax_om = [20, 25], WindDirMean_om = [90, 270]\<rparr>"]
    toForecastDays_outcomes [where parse = parseDate and d =
      "\<lparr>Time_om = [''2024-01-01'', ''2024-02-30''], WindSpeedMax_om = [10, 12],
        WindGustMax_om = [20, 25], WindDirMean_om = [90, 270]\<rparr>"]
    toForecastDays_outcomes [where parse = parseDate and d =
      "\<lparr>Time_om = [''2024-01-01'', ''2024-01-02''], WindSpeedMax_om = [10, 12],
        WindGustMax_om = [20, 25], WindDirMean_om = [90, 270]\<rparr>"]
  by (simp add: parse_defs mkDay_def)

lemma pick_Cons:
  "pick P (t # ts) (v # vs) = (if P t then v # pick P ts vs else pick P ts vs)"
  by (simp add: pick_def)

lemma pick_Nil [simp]: "pick P [] vs = []"
  by (simp add: pick_def)

lemma hourlyStep_attributed:
  assumes "j < length (PrecipProb_rh h)" and "j < length (Precip_rh h)"
  shows "hourlyStep parseHour date h (j, hourStr) rf =
           Inr (rf\<lparr>MorningRainProb := MorningRainProb rf
                      @ (if attributed parseHour date 6 10 hourStr
                         then [PrecipProb_rh h ! j] else []),
                   MorningRainMM := MorningRainMM rf
                      @ (if attributed parseHour date 6 10 hourStr
                         then [Precip_rh h ! j] else []),
                   AfternoonProb := AfternoonProb rf
                      @ (if attributed parseHour date 15 18 hourStr
                         then [PrecipProb_rh h ! j] else [])\<rparr>)"
  using assms
  by (cases "parseHour hourStr") (auto simp add: hourlyStep_def attributed_def Let_def)

lemma scanHourly_result:
  assumes "k + length ts \<le> length (PrecipProb_rh h)"
    and "k + length ts \<le> length (Precip_rh h)"
  shows "scanHourly parseHour date h (enumerate k ts) rf =
           Inr (rf\<lparr>MorningRainProb := MorningRainProb rf
                      @ pick (attributed parseHour date 6 10) ts (drop k (PrecipProb_rh h)),
                   MorningRainMM := MorningRainMM rf
                      @ pick (attributed parseHour date 6 10) ts (drop k (Precip_rh h)),
                   AfternoonProb := AfternoonProb rf
                      @ pick (attributed parseHour date 15 18) ts (drop k (PrecipProb_rh h))\<rparr>)"
  using assms
proof (induction ts arbitrary: k rf)
  case Nil
  then show ?case by simp
next
  case (Cons t ts)
  have k: "k < length (PrecipProb_rh h)" "k < length (Precip_rh h)"
    using Cons.prems by simp_all
  have dp: "drop k (PrecipProb_rh h) = PrecipProb_rh h ! k # drop (Suc k) (PrecipProb_rh h)"
    using k by (simp add: Cons_nth_drop_Suc)
  have dm: "drop k (Precip_rh h) = Precip_rh h ! k # drop (Suc k) (Precip_rh h)"
    using k by (simp add: Cons_nth_drop_Suc)
  have ih: "Suc k + length ts \<le> length (PrecipProb_rh h)"
    "Suc k + length ts \<le> length (Precip_rh h)"
    using Cons.prems by simp_all
  show ?case
    by (simp add: hourlyStep_attributed [OF k] Cons.IH [OF ih] dp dm pick_Cons)
qed

lemma rainDay_result:
  assumes "i < length (PrecipProb_rd (Daily r))" and "i < length (PrecipSum_rd (Daily r))"
    and "length (Time_rh (Hourly r)) \<le> length (PrecipProb_rh (Hourly r))"
    and "length (Time_rh (Hourly r)) \<le> length (Precip_rh (Hourly r))"
  shows "rainDay parseDay parseHour r (i, dateStr) =
           (case parseDay dateStr of
              None \<Rightarrow> Inl (DateParse dateStr)
            | Some date \<Rightarrow>
                Inr (rainDaySpec parseHour (Hourly r) date
                       (PrecipProb_rd (Daily r) ! i) (PrecipSum_rd (Daily r) ! i)))"
  using assms
  by (simp add: rainDay_def scanHourly_result rainDaySpec_def split: option.splits)

lemma toRainForecasts_loop_result:
  assumes "k + length ds \<le> length (PrecipProb_rd (Daily r))"
    and "k + length ds \<le> length (PrecipSum_rd (Daily r))"
    and "length (Time_rh (Hourly r)) \<le> length (PrecipProb_rh (Hourly r))"
    and "length (Time_rh (Hourly r)) \<le> length (Precip_rh (Hourly r))"
  shows "toRainForecasts_loop parseDay parseHour r (enumerate k ds) out =
           (case List.find (\<lambda>s. parseDay s = None) ds of
              Some s \<Rightarrow> Inl (DateParse s)
            | None \<Rightarrow>
                Inr (out @ map (\<lambda>is. rainDaySpec parseHour (Hourly r) (the (parseDay (snd is)))
                                  (PrecipProb_rd (Daily r) ! fst is)
                                  (PrecipSum_rd (Daily r) ! fst is))
                             (enumerate k ds)))"
  using assms(1,2)
proof (induction ds arbitrary: k out)
  case Nil
  then show ?case by simp
next
  case (Cons s ds)
  have k: "k < length (PrecipProb_rd (Daily r))" "k < length (PrecipSum_rd (Daily r))"
    using Cons.prems by simp_all
  have ih: "Suc k + length ds \<le> length (PrecipProb_rd (Daily r))"
    "Suc k + length ds \<le> length (PrecipSum_rd (Daily r))"
    using Cons.prems by simp_all
  show ?case
    by (cases "parseDay s")
      (simp_all add: rainDay_result [OF k assms(3,4)] Cons.IH [OF ih] split: option.splits)
qed

text \<open>
  C6. For a payload whose metric arrays are at least as long as their time arrays,
  \<^verbatim>\<open>toRainForecasts\<close> fails with the date-parse error on the first daily date the
  parser rejects, and otherwise returns one record per day in which the morning
  probabilities and amounts are the hourly values whose timestamp parses, has the
  year, month and day of the day's date and an hour in \<open>[6,10]\<close>, and the afternoon
  probabilities those with an hour in \<open>[15,18]\<close>, in the order of the hourly series.
  A sample at another hour or on another date enters neither list, and an hourly
  timestamp the parser rejects is passed over.
\<close>

theorem toRainForecasts_attribution:
  assumes "Time_rd (Daily r) \<noteq> []"
    and "length (Time_rd (Daily r)) \<le> length (PrecipProb_rd (Daily r))"
    and "length (Time_rd (Daily r)) \<le> length (PrecipSum_rd (Daily r))"
    and "length (Time_rh (Hourly r)) \<le> length (PrecipProb_rh (Hourly r))"
    and "length (Time_rh (Hourly r)) \<le> length (Precip_rh (Hourly r))"
  shows "toRainForecasts parseDay parseHour r =
           (case List.find (\<lambda>s. parseDay s = None) (Time_rd (Daily r)) of
              Some s \<Rightarrow> Inl (DateParse s)
            | None \<Rightarrow>
                Inr (map (\<lambda>is. rainDaySpec parseHour (Hourly r) (the (parseDay (snd is)))
                                  (PrecipProb_rd (Daily r) ! fst is)
                                  (PrecipSum_rd (Daily r) ! fst is))
                         (enumerate 0 (Time_rd (Daily r)))))"
  using assms toRainForecasts_loop_result [of 0 "Time_rd (Daily r)" r parseDay parseHour "[]"]
  by (simp add: toRainForecasts_def split: option.splits)

theorem toRainForecasts_attribution_witness:
  "toRainForecasts parseDate parseDateTime rainExample =
     Inr [\<lparr>Date_rf = \<lparr>tYear = 2024, tMonth = 1, tDay = 1, tHour = 0, tMinute = 0\<rparr>,
           PrecipProb_rf = 40, PrecipMM = 3 / 2, MorningRainProb = [10],
           MorningRainMM = [1 / 10], AfternoonProb = [20]\<rparr>]"
proof -
  have pre: "Time_rd (Daily rainExample) \<noteq> []"
    "length (Time_rd (Daily rainExample)) \<le> length (PrecipProb_rd (Daily rainExample))"
    "length (Time_rd (Daily rainExample)) \<le> length (PrecipSum_rd (Daily rainExample))"
    "length (Time_rh (Hourly rainExample)) \<le> length (PrecipProb_rh (Hourly rainExample))"
    "length (Time_rh (Hourly rainExample)) \<le> length (Precip_rh (Hourly rainExample))"
    by (simp_all add: rainExample_def)
  show ?thesis
    unfolding toRainForecasts_attribution [OF pre, of parseDate parseDateTime]
    by (simp add: rainExample_def rainDaySpec_def pick_def attributed_def enumerate_eq_zip
        parse_defs)
qed

text \<open>
  C3. The claim: a rain payload with a date but with daily or hourly metric arrays
  shorter than the time arrays is rejected with a validation error.
  \<^verbatim>\<open>toRainForecasts\<close> compares no lengths (\<^verbatim>\<open>toForecastDays\<close> does) and indexes
  the metric arrays by the position in the time array: with one date and empty daily
  metric arrays, and with one matching morning sample and empty hourly metric arrays,
  the call ends in the index-out-of-range panic, which is no validation error.
\<close>

theorem toRainForecasts_index_panic:
  "toRainForecasts parseDate parseDateTime
     \<lparr>Daily = \<lparr>Time_rd = [''2024-01-01''], PrecipSum_rd = [], PrecipProb_rd = []\<rparr>,
      Hourly = \<lparr>Time_rh = [], PrecipProb_rh = [], Precip_rh = []\<rparr>\<rparr>
     = Inl PanicIndexOutOfRange
   \<and> toRainForecasts parseDate parseDateTime
     \<lparr>Daily = \<lparr>Time_rd = [''2024-01-01''], PrecipSum_rd = [3 / 2], PrecipProb_rd = [40]\<rparr>,
      Hourly = \<lparr>Time_rh = [''2024-01-01T07:00''], PrecipProb_rh = [], Precip_rh = []\<rparr>\<rparr>
     = Inl PanicIndexOutOfRange
   \<and> \<not> isValidationError PanicIndexOutOfRange"
  by (simp add: toRainForecasts_def rainDay_def hourlyStep_def goIndex_def enumerate_eq_zip
      isValidationError_def parse_defs)

section \<open>Properties of the report builder\<close>

lemma countEasterlyDays_foldl:
  "foldl (\<lambda>count d. if isEasterly (WindDirMean d) then count + 1 else count) c days
     = c + int (length (filter (\<lambda>d. isEasterly (WindDirMean d)) days))"
  by (induction days arbitrary: c) simp_all

lemma countEasterlyDays_filter:
  "countEasterlyDays days = int (length (filter (\<lambda>d. isEasterly (WindDirMean d)) days))"
  by (simp add: countEasterlyDays_def countEasterlyDays_foldl)

lemma isEasterly_degToCompass: "isEasterly x = (degToCompass x = ''E'')"
  by (simp add: isEasterly_def degToCompass_def Let_def)

text \<open>
  C9. The aggregate analysis counts as \<open>eastCount\<close> the days whose mean direction the
  two-point classifier answers East for, takes \<open>westCount\<close> as the number of days less
  \<open>eastCount\<close>, and labels the result East (with the marker) when \<open>eastCount\<close> is the
  larger, West when \<open>westCount\<close> is, and Mixed when they are equal. When there is at
  least one day and every day is East, the label is East and \<open>westCount\<close> is 0; for no
  day at all both counts are 0 and the label is Mixed. The summary line carries the
  label and both counts.
\<close>

theorem easterlyCounts_aggregate:
  "(case easterlyCounts days of (dominant, eastCount, westCount) \<Rightarrow>
      eastCount = int (length (filter (\<lambda>d. degToCompass (WindDirMean d) = ''E'') days))
      \<and> westCount = int (length days) - eastCount
      \<and> dominant = (if eastCount > westCount then ''E '' @ airplane
                     else if westCount > eastCount then ''W'' else ''Mixed'')
      \<and> (days \<noteq> [] \<and> (\<forall>d\<in>set days. degToCompass (WindDirMean d) = ''E'')
           \<longrightarrow> dominant = ''E '' @ airplane \<and> westCount = 0)
      \<and> buildEasterlyAnalysis days =
           ''Dominant: '' @ dominant @ '' | East: '' @ fmtInt eastCount
           @ '' days | West: '' @ fmtInt westCount @ '' days'' @ newline)
   \<and> easterlyCounts [] = (''Mixed'', 0, 0)"
proof -
  have cnt: "countEasterlyDays days
      = int (length (filter (\<lambda>d. degToCompass (WindDirMean d) = ''E'') days))"
    by (simp add: countEasterlyDays_filter isEasterly_degToCompass)
  have all_east: "filter (\<lambda>d. degToCompass (WindDirMean d) = ''E'') days = days"
    if "\<forall>d\<in>set days. degToCompass (WindDirMean d) = ''E''"
    using that by (simp add: filter_id_conv)
  have len: "0 < length days" if "days \<noteq> []"
    using that by simp
  have empty: "easterlyCounts [] = (''Mixed'', 0, 0)"
    by (simp add: easterlyCounts_def countEasterlyDays_def)
  show ?thesis
    using all_east len empty
    by (auto simp add: easterlyCounts_def buildEasterlyAnalysis_def Let_def cnt)
qed

theorem easterlyCounts_aggregate_witness:
  "easterlyCounts
     [\<lparr>Date = \<lparr>tYear = 2024, tMonth = 1, tDay = 1, tHour = 0, tMinute = 0\<rparr>,
       WindSpeedMax = 10, WindGustMax = 20, WindDirMean = 90\<rparr>,
      \<lparr>Date = \<lparr>tYear = 2024, tMonth = 1, tDay = 2, tHour = 0, tMinute = 0\<rparr>,
       WindSpeedMax = 12, WindGustMax = 25, WindDirMean = 120\<rparr>]
     = (''E '' @ airplane, 2, 0)"
proof -
  let ?days = "[\<lparr>Date = \<lparr>tYear = 2024, tMonth = 1, tDay = 1, tHour = 0, tMinute = 0\<rparr>,
       WindSpeedMax = 10, WindGustMax = 20, WindDirMean = 90\<rparr>,
      \<lparr>Date = \<lparr>tYear = 2024, tMonth = 1, tDay = 2, tHour = 0, tMinute = 0\<rparr>,
       WindSpeedMax = 12, WindGustMax = 25, WindDirMean = 120\<rparr>]"
  have h: "?days \<noteq> [] \<and> (\<forall>d\<in>set ?days. degToCompass (WindDirMean d) = ''E'')"
    by (simp add: degToCompass_def normalizeDeg_def goRem_def goTrunc_def)
  obtain dominant e w where c: "easterlyCounts ?days = (dominant, e, w)"
    by (cases "easterlyCounts ?days") auto
  from easterlyCounts_aggregate [of ?days] h
  have "dominant = ''E '' @ airplane \<and> w = 0 \<and> w = int (length ?days) - e"
    unfolding c by simp
  then show ?thesis
    unfolding c by simp
qed

section \<open>Properties of the orchestrator\<close>

text \<open>
  The cycle of the other version hands over messages in the same number and order,
  the first being the fenced table alone.
\<close>

lemma runCycleNESW_messages:
  assumes "Weather (cfg a) = Some fetch" and "Ollama (cfg a) = Some generate"
    and "TelegramToken (cfg a) \<noteq> []" and "TelegramChatID (cfg a) \<noteq> []"
  shows "(let forecast = fst (fetch (ForecastDays (cfg a)));
              report = buildForecastTableNESW env forecast;
              prompt = buildPromptNESW (fallbackLocation env (LocationName (cfg a)))
                         forecast report;
              tableMsg = ''```'' @ newline @ report @ ''```''
          in case generate prompt of
               Inr summary \<Rightarrow>
                 runCycleNESW env a w = Inr (w\<lparr>sent := sent w @ [tableMsg, summary]\<rparr>)
             | Inl e \<Rightarrow> runCycleNESW env a w = Inr (w\<lparr>sent := sent w @ [tableMsg]\<rparr>))"
  using assms
  by (simp add: runCycleNESW_def Let_def sendTelegramMessage_def formatTelegramTable_def
      split: prod.splits sum.splits)



lemma nsPerDay_pos: "0 < nsPerDay"
  by (simp add: nsPerDay_def nsPerHour_def nsPerMinute_def)

lemma nextRun_cases:
  "nextRun now runHour runMinute =
     (if now < todayAt now runHour runMinute then todayAt now runHour runMinute
      else todayAt now runHour runMinute + nsPerDay)"
  by (simp add: nextRun_def Let_def nsPerDay_def)

text \<open>
  C7. The next trigger computed at the end of a cycle is today at
  \<open>runHour:runMinute\<close> when that instant is strictly after the current time, and that
  instant plus one day otherwise, in particular when the current time is the trigger
  instant itself. For an hour below 24 and a minute below 60 it is strictly in the
  future, at most a day away, and at \<open>runHour:runMinute\<close> of its day. At 09:00 with
  the trigger 10:00 it is 10:00 of the same day; at 10:01 it is 10:00 of the next.
\<close>

theorem nextRun_trigger:
  "nextRun now runHour runMinute =
     (if now < todayAt now runHour runMinute then todayAt now runHour runMinute
      else todayAt now runHour runMinute + nsPerDay)
   \<and> (now = todayAt now runHour runMinute \<longrightarrow> nextRun now runHour runMinute = now + nsPerDay)
   \<and> (0 \<le> runHour \<and> runHour < 24 \<and> 0 \<le> runMinute \<and> runMinute < 60 \<longrightarrow>
        now < nextRun now runHour runMinute
        \<and> nextRun now runHour runMinute \<le> now + nsPerDay
        \<and> nextRun now runHour runMinute mod nsPerDay = runHour * nsPerHour + runMinute * nsPerMinute)
   \<and> nextRun (day * nsPerDay + 9 * nsPerHour) 10 0 = day * nsPerDay + 10 * nsPerHour
   \<and> nextRun (day * nsPerDay + 10 * nsPerHour + 1 * nsPerMinute) 10 0
        = (day + 1) * nsPerDay + 10 * nsPerHour"
proof -
  have a: "nextRun now runHour runMinute =
     (if now < todayAt now runHour runMinute then todayAt now runHour runMinute
      else todayAt now runHour runMinute + nsPerDay)"
    by (rule nextRun_cases)
  have b: "nextRun now runHour runMinute = now + nsPerDay"
    if "now = todayAt now runHour runMinute"
    using that a by simp
  have c: "now < nextRun now runHour runMinute
        \<and> nextRun now runHour runMinute \<le> now + nsPerDay
        \<and> nextRun now runHour runMinute mod nsPerDay = runHour * nsPerHour + runMinute * nsPerMinute"
    if h: "0 \<le> runHour \<and> runHour < 24 \<and> 0 \<le> runMinute \<and> runMinute < 60"
  proof -
    define off where "off = runHour * nsPerHour + runMinute * nsPerMinute"
    define q where "q = now div nsPerDay"
    define r where "r = now mod nsPerDay"
    have now: "now = q * nsPerDay + r"
      by (simp add: q_def r_def)
    have r: "0 \<le> r" "r < nsPerDay"
      using nsPerDay_pos by (simp_all add: r_def)
    have off: "0 \<le> off" "off < nsPerDay"
      using h by (auto simp add: off_def nsPerDay_def nsPerHour_def nsPerMinute_def)
    have t: "todayAt now runHour runMinute = q * nsPerDay + off"
      by (simp add: todayAt_def q_def off_def)
    have m1: "(q * nsPerDay + off) mod nsPerDay = off"
      using off by simp
    have m2: "(q * nsPerDay + off + nsPerDay) mod nsPerDay = off"
      using off by simp
    show ?thesis
      unfolding a t off_def [symmetric]
      using r off m1 m2 now by auto
  qed
  have q9: "(day * nsPerDay + 9 * nsPerHour) div nsPerDay = day"
    by (simp add: nsPerDay_def nsPerHour_def nsPerMinute_def)
  have q10: "(day * nsPerDay + 10 * nsPerHour + 1 * nsPerMinute) div nsPerDay = day"
    by (simp add: nsPerDay_def nsPerHour_def nsPerMinute_def)
  have d: "nextRun (day * nsPerDay + 9 * nsPerHour) 10 0 = day * nsPerDay + 10 * nsPerHour"
    unfolding nextRun_cases todayAt_def q9 by (simp add: nsPerHour_def nsPerMinute_def)
  have e: "nextRun (day * nsPerDay + 10 * nsPerHour + 1 * nsPerMinute) 10 0
        = (day + 1) * nsPerDay + 10 * nsPerHour"
    unfolding nextRun_cases todayAt_def q10 by (simp add: nsPerHour_def nsPerMinute_def algebra_simps)
  show ?thesis
    using a b c d e by blast
qed

theorem nextRun_trigger_witness:
  "nextRun (19000 * nsPerDay + 10 * nsPerHour) 10 0 = 19000 * nsPerDay + 10 * nsPerHour + nsPerDay
   \<and> 19000 * nsPerDay + 10 * nsPerHour < nextRun (19000 * nsPerDay + 10 * nsPerHour) 10 0
   \<and> nextRun (19000 * nsPerDay + 9 * nsPerHour) 10 0 = 19000 * nsPerDay + 10 * nsPerHour"
proof -
  note t = nextRun_trigger [of "19000 * nsPerDay + 10 * nsPerHour" 10 0 19000]
  have eq: "19000 * nsPerDay + 10 * nsPerHour = todayAt (19000 * nsPerDay + 10 * nsPerHour) 10 0"
    by (simp add: todayAt_def nsPerDay_def nsPerHour_def nsPerMinute_def)
  have rng: "(0::int) \<le> 10 \<and> (10::int) < 24 \<and> (0::int) \<le> 0 \<and> (0::int) < 60"
    by simp
  from t eq have a: "nextRun (19000 * nsPerDay + 10 * nsPerHour) 10 0
      = 19000 * nsPerDay + 10 * nsPerHour + nsPerDay"
    by blast
  from t rng have b: "19000 * nsPerDay + 10 * nsPerHour
      < nextRun (19000 * nsPerDay + 10 * nsPerHour) 10 0"
    by blast
  from t have c: "nextRun (19000 * nsPerDay + 9 * nsPerHour) 10 0
      = 19000 * nsPerDay + 10 * nsPerHour"
    by blast
  from a b c show ?thesis by blast
qed

end
